theory Spec2Isabelle
  imports Main "HOL-Library.Char_ord" "HOL-Library.List_Lexorder"
begin

section \<open>The pet feeder controller (pet-feeder.py)\<close>

text \<open>
  The application is one class, \<open>PetFeederApp\<close>, whose handlers read and write a few
  attributes and talk to three collaborators: the schedule file, the stepper motor of the
  robot, and the dialogs of the user interface. Each handler is translated into a function
  from the attributes (and the file, where it is touched) to the new attributes and the list
  of events the handler produced, in the order it produced them; a handler that can end
  with an exception nothing in it catches returns that exception too. Everything the
  handler reads from outside (the clock, the text typed into a dialog, the selected row,
  how a remote call goes) is an argument.

  One handler runs from its first to its last statement without another handler running in
  between; the interleaving of coroutines at an \<open>await\<close> is not part of the model.
\<close>

subsection \<open>Constants\<close>

definition DEFAULT_SCHEDULE :: "string list" where
  "DEFAULT_SCHEDULE = [''06:00'', ''12:00'', ''16:02'']"

subsection \<open>Events and exceptions\<close>

text \<open>
  What a handler does to the outside: a line printed, a call on the stepper
  (\<open>go_for(rpm, revolutions)\<close>, \<open>stop()\<close>), a message box (title, text), and the
  start of the task that runs \<open>scheduled_feed\<close>.
\<close>

datatype event =
    Print string
  | GoFor int int
  | Stop
  | Warning string string
  | Critical string string
  | FeedTask

text \<open>
  The exceptions that leave a handler because nothing in it catches them: \<open>IndexError\<close>
  from \<open>list.pop\<close>, \<open>TypeError\<close> from \<open>asyncio.create_task\<close>, and
  \<open>asyncio.CancelledError\<close>, which is not an \<open>Exception\<close> and so passes an
  \<open>except Exception\<close> clause.
\<close>

datatype error = IndexError | TypeError | CancelledError

subsection \<open>The schedule file and the json library\<close>

text \<open>
  The value \<open>json.load\<close> returns: a list (of strings: the only lists the application
  writes; lists with other elements are outside the model) or any other document.
\<close>

datatype json = JList "string list" | JOther

text \<open>
  The file \<open>schedule.json\<close>: absent, present but \<open>open\<close> raises (with the message of the
  exception), or present with a text.
\<close>

datatype schedule_file = Absent | Unreadable string | Content string

text \<open>
  How the write in \<open>save_schedule\<close> goes: it succeeds; \<open>open\<close> raises, and the file is as
  it was; or \<open>open\<close> has truncated the file and \<open>json.dump\<close> raises after some
  characters have reached it.
\<close>

datatype write_outcome = WriteOk | OpenFails string | DumpFails nat string

text \<open>
  The json library is not code of the repository. It enters as two arguments:
  \<open>dumps\<close>, the text \<open>json.dump\<close> writes for a document, and \<open>loads\<close>, what
  \<open>json.load\<close> does with a text: \<open>Inl e\<close> when it raises (with message \<open>e\<close>),
  \<open>Inr d\<close> when it returns the document \<open>d\<close>.
\<close>

definition load_schedule :: "(string \<Rightarrow> string + json) \<Rightarrow> schedule_file \<Rightarrow> string list \<times> event list" where
  "load_schedule loads f =
     (case f of
        Absent \<Rightarrow> (DEFAULT_SCHEDULE, [])
      | Unreadable e \<Rightarrow>
          (DEFAULT_SCHEDULE, [Print (''[SCHEDULE] Failed to load schedule: '' @ e)])
      | Content t \<Rightarrow>
          (case loads t of
             Inl e \<Rightarrow> (DEFAULT_SCHEDULE, [Print (''[SCHEDULE] Failed to load schedule: '' @ e)])
           | Inr (JList data) \<Rightarrow> (data, [])
           | Inr JOther \<Rightarrow> (DEFAULT_SCHEDULE, [])))"

definition save_schedule ::
  "(json \<Rightarrow> string) \<Rightarrow> write_outcome \<Rightarrow> string list \<Rightarrow> schedule_file \<Rightarrow> schedule_file \<times> event list" where
  "save_schedule dumps w sch f =
     (case w of
        WriteOk \<Rightarrow> (Content (dumps (JList sch)), [])
      | OpenFails e \<Rightarrow> (f, [Print (''[SCHEDULE] Failed to save schedule: '' @ e)])
      | DumpFails n e \<Rightarrow>
          (Content (take n (dumps (JList sch))),
           [Print (''[SCHEDULE] Failed to save schedule: '' @ e)]))"

subsection \<open>The attributes of the application\<close>

record app =
  stepper :: bool
  camera :: bool
  connected :: bool
  schedule :: "string list"
  last_feed_time :: "string option"
  status_label :: string
  schedule_list :: "string list"
  connect_btn :: bool
  feed_btn :: bool
  refresh_cam_btn :: bool

text \<open>
  \<open>stepper\<close> and \<open>camera\<close> say whether the attribute holds a component (it is \<open>None\<close>
  before the connection); the three buttons are their enabled flags; \<open>schedule_list\<close> is
  the items of the list widget.
\<close>

definition init :: "(string \<Rightarrow> string + json) \<Rightarrow> schedule_file \<Rightarrow> app \<times> event list" where
  "init loads f =
     (case load_schedule loads f of (sch, ev) \<Rightarrow>
        (\<lparr>stepper = False, camera = False, connected = False, schedule = sch,
          last_feed_time = None, status_label = ''Status: Not connected'',
          schedule_list = sch, connect_btn = True, feed_btn = False,
          refresh_cam_btn = False\<rparr>, ev))"

subsection \<open>Times of day\<close>

text \<open>
  Of \<open>datetime.now()\<close> the handlers read the hour (0 to 23) and the minute (0 to 59),
  through \<open>strftime("%H:%M")\<close>: two digits each, padded with a zero.
\<close>

record datetime =
  hour :: nat
  minute :: nat
  second :: nat

definition digit_char :: "nat \<Rightarrow> char" where
  "digit_char n = ''0123456789'' ! (n mod 10)"

definition pad2 :: "nat \<Rightarrow> string" where
  "pad2 n = [digit_char (n div 10), digit_char n]"

definition strftime_HM :: "datetime \<Rightarrow> string" where
  "strftime_HM d = pad2 (hour d) @ '':'' @ pad2 (minute d)"

text \<open>
  \<open>datetime.strptime(time, "%H:%M")\<close> compiles the format into the regular expression
  \<open>(?P<H>2[0-3]|[0-1]\d|\d):(?P<M>[0-5]\d|\d)\<close>, matches it at the start of the text and
  raises \<open>ValueError\<close> when there is no match or when text remains after the match. The
  alternatives of a group are tried in their order, with backtracking: each matcher below
  returns its candidates (the value read and the rest of the text) in that order.
  Digits are the ASCII digits; the decimal digits of other scripts, which \<open>\d\<close> matches
  too, are outside the model.
\<close>

definition is_digit :: "char \<Rightarrow> bool" where
  "is_digit c = (c \<in> set ''0123456789'')"

definition digit_val :: "char \<Rightarrow> nat" where
  "digit_val c = of_char c - 48"

definition match_H :: "string \<Rightarrow> (nat \<times> string) list" where
  "match_H s =
     (case s of
        a # b # r \<Rightarrow>
          (if a = CHR ''2'' \<and> b \<in> set ''0123'' then [(20 + digit_val b, r)] else []) @
          (if a \<in> set ''01'' \<and> is_digit b then [(10 * digit_val a + digit_val b, r)] else [])
      | _ \<Rightarrow> []) @
     (case s of a # r \<Rightarrow> (if is_digit a then [(digit_val a, r)] else []) | _ \<Rightarrow> [])"

definition match_colon :: "string \<Rightarrow> string list" where
  "match_colon s = (case s of c # r \<Rightarrow> (if c = CHR '':'' then [r] else []) | _ \<Rightarrow> [])"

definition match_M :: "string \<Rightarrow> (nat \<times> string) list" where
  "match_M s =
     (case s of
        a # b # r \<Rightarrow>
          (if a \<in> set ''012345'' \<and> is_digit b then [(10 * digit_val a + digit_val b, r)] else [])
      | _ \<Rightarrow> []) @
     (case s of a # r \<Rightarrow> (if is_digit a then [(digit_val a, r)] else []) | _ \<Rightarrow> [])"

definition regex_HM :: "string \<Rightarrow> (nat \<times> nat \<times> string) list" where
  "regex_HM s =
     concat (map (\<lambda>(h, r1).
       concat (map (\<lambda>r2. map (\<lambda>(m, r3). (h, m, r3)) (match_M r2)) (match_colon r1)))
       (match_H s))"

definition strptime_HM :: "string \<Rightarrow> (nat \<times> nat) option" where
  "strptime_HM s =
     (case regex_HM s of
        [] \<Rightarrow> None
      | (h, m, rest) # _ \<Rightarrow> (if rest = [] then Some (h, m) else None))"

subsection \<open>Connecting\<close>

text \<open>
  How \<open>on_connect\<close> goes: the connection raises; it succeeds and the stepper is not found;
  the stepper is found and the camera is not; everything succeeds. The text printed for
  the component names comes with the connection.
\<close>

datatype connect_outcome =
    ConnectRaises string
  | StepperRaises string string
  | CameraRaises string string
  | ConnectOk string

definition connection_failed :: "string \<Rightarrow> app \<Rightarrow> app \<times> event list" where
  "connection_failed e st =
     (st\<lparr>status_label := ''Status: Connection failed'', connect_btn := True\<rparr>,
      [Critical ''Connection Error'' e])"

definition on_connect :: "connect_outcome \<Rightarrow> app \<Rightarrow> app \<times> event list" where
  "on_connect c st =
     (let st1 = st\<lparr>status_label := ''Status: Connecting...'', connect_btn := False\<rparr>
      in case c of
           ConnectRaises e \<Rightarrow> connection_failed e st1
         | StepperRaises names e \<Rightarrow>
             (case connection_failed e st1 of
                (st2, ev) \<Rightarrow> (st2, Print (''Available components: '' @ names) # ev))
         | CameraRaises names e \<Rightarrow>
             (case connection_failed e (st1\<lparr>stepper := True\<rparr>) of
                (st2, ev) \<Rightarrow> (st2, Print (''Available components: '' @ names) # ev))
         | ConnectOk names \<Rightarrow>
             (st1\<lparr>stepper := True, camera := True, connected := True,
                  status_label := ''Status: Connected!'', feed_btn := True,
                  refresh_cam_btn := True\<rparr>,
              [Print (''Available components: '' @ names)]))"

subsection \<open>Editing the schedule\<close>

text \<open>
  \<open>add_time\<close> reads the dialog: the text typed and whether the user confirmed.
  \<open>strptime\<close> is the only statement of the \<open>try\<close> block that raises \<open>ValueError\<close>.
\<close>

definition add_time ::
  "(json \<Rightarrow> string) \<Rightarrow> write_outcome \<Rightarrow> string \<times> bool \<Rightarrow> app \<times> schedule_file
     \<Rightarrow> (app \<times> schedule_file) \<times> event list" where
  "add_time dumps w dlg sf =
     (case dlg of (time, ok) \<Rightarrow> case sf of (st, f) \<Rightarrow>
        if ok \<and> time \<noteq> [] then
          (case strptime_HM time of
             None \<Rightarrow>
               ((st, f), [Warning ''Invalid Time'' ''Please enter time in HH:MM format.''])
           | Some _ \<Rightarrow>
               if time \<notin> set (schedule st) then
                 (let sch = sort (schedule st @ [time]);
                      st' = st\<lparr>schedule := sch, schedule_list := sch\<rparr>
                  in case save_schedule dumps w sch f of (f', ev) \<Rightarrow> ((st', f'), ev))
               else ((st, f), []))
        else ((st, f), []))"

text \<open>
  \<open>remove_time\<close> reads the current row of the list widget, \<open>-1\<close> when no row is
  selected. \<open>list.pop\<close> raises \<open>IndexError\<close> for an index past the end, and nothing
  catches it; \<open>takeItem\<close> removes the same row from the widget.
\<close>

definition pop :: "nat \<Rightarrow> 'a list \<Rightarrow> 'a list" where
  "pop i xs = take i xs @ drop (Suc i) xs"

definition remove_time ::
  "(json \<Rightarrow> string) \<Rightarrow> write_outcome \<Rightarrow> int \<Rightarrow> app \<times> schedule_file
     \<Rightarrow> error + ((app \<times> schedule_file) \<times> event list)" where
  "remove_time dumps w selected sf =
     (case sf of (st, f) \<Rightarrow>
        if selected \<ge> 0 then
          (if nat selected < length (schedule st) then
             (let sch = pop (nat selected) (schedule st);
                  st' = st\<lparr>schedule := sch,
                           schedule_list := pop (nat selected) (schedule_list st)\<rparr>
              in case save_schedule dumps w sch f of (f', ev) \<Rightarrow> Inr ((st', f'), ev))
           else Inl IndexError)
        else Inr ((st, f), []))"

subsection \<open>How a handler ends\<close>

text \<open>
  The handlers below can end with an exception after they have changed attributes and
  produced events. Their result is the attributes at the end, the events in order, and
  the exception that leaves the handler, if one does.
\<close>

record outcome =
  attrs :: app
  events :: "event list"
  raised :: "error option"

subsection \<open>The schedule check\<close>

text \<open>
  On the firing path the last statement is
  \<open>asyncio.create_task(self.scheduled_feed())\<close>. The argument is evaluated first:
  \<open>scheduled_feed\<close> carries the \<open>asyncSlot\<close> decorator, so the call puts the coroutine on
  the event loop as a task and returns that task. \<open>create_task\<close> then receives a task
  where it takes a coroutine and raises \<open>TypeError\<close>, which \<open>check_schedule\<close> does not
  catch. The handler ends with the marker set, the feed task started, and the exception
  leaving into the timer slot.
\<close>

definition check_schedule :: "datetime \<Rightarrow> app \<Rightarrow> outcome" where
  "check_schedule now st =
     (if \<not> connected st \<or> \<not> stepper st then \<lparr>attrs = st, events = [], raised = None\<rparr>
      else
        (let current_time = strftime_HM now
         in if current_time \<in> set (schedule st) then
              (if last_feed_time st \<noteq> Some current_time then
                 \<lparr>attrs = st\<lparr>last_feed_time := Some current_time\<rparr>,
                  events = [Print (''[SCHEDULE] Time to feed! Current time: '' @ current_time),
                            FeedTask],
                  raised = Some TypeError\<rparr>
               else \<lparr>attrs = st, events = [], raised = None\<rparr>)
            else \<lparr>attrs = st, events = [], raised = None\<rparr>))"

text \<open>The check fires when it starts the task of the scheduled feed.\<close>

definition should_feed :: "datetime \<Rightarrow> app \<Rightarrow> bool" where
  "should_feed now st = (FeedTask \<in> set (events (check_schedule now st)))"

definition new_marker :: "datetime \<Rightarrow> app \<Rightarrow> string option" where
  "new_marker now st = last_feed_time (attrs (check_schedule now st))"

subsection \<open>Feeding\<close>

text \<open>
  A call on the stepper returns, raises an \<open>Exception\<close> (with its message), or raises
  an exception outside \<open>Exception\<close>, of which \<open>asyncio.CancelledError\<close> is the one an
  awaited call meets. The stepper, as the handlers see it, is how \<open>go_for\<close> and
  \<open>stop\<close> go.
\<close>

datatype call_outcome = Returns | Raises string | Cancelled

record motor =
  go_for_outcome :: call_outcome
  stop_outcome :: call_outcome

definition scheduled_feed :: "motor \<Rightarrow> app \<Rightarrow> outcome" where
  "scheduled_feed m st =
     (if \<not> connected st \<or> \<not> stepper st then \<lparr>attrs = st, events = [], raised = None\<rparr>
      else
        (let st1 = st\<lparr>status_label := ''Status: Scheduled feeding...''\<rparr>;
             started = [Print ''[SCHEDULE] Scheduled feeding started'', GoFor 500 (- 3)];
             failed = (\<lambda>ev e.
               \<lparr>attrs = st1\<lparr>status_label := ''Status: Scheduled feed failed!''\<rparr>,
                events = ev @ [Print (''[SCHEDULE] Scheduled feed error: '' @ e)],
                raised = None\<rparr>)
         in case go_for_outcome m of
              Raises e \<Rightarrow> failed started e
            | Cancelled \<Rightarrow> \<lparr>attrs = st1, events = started, raised = Some CancelledError\<rparr>
            | Returns \<Rightarrow>
                (case stop_outcome m of
                   Raises e \<Rightarrow> failed (started @ [Stop]) e
                 | Cancelled \<Rightarrow>
                     \<lparr>attrs = st1, events = started @ [Stop], raised = Some CancelledError\<rparr>
                 | Returns \<Rightarrow>
                     \<lparr>attrs = st1\<lparr>status_label := ''Status: Scheduled feed complete!''\<rparr>,
                      events = started @ [Stop, Print ''[SCHEDULE] Scheduled feeding complete''],
                      raised = None\<rparr>)))"

text \<open>
  In \<open>on_feed\<close> the \<open>finally\<close> block runs after the \<open>try\<close> block on every path,
  also when an exception passes the \<open>except\<close> clause.
\<close>

definition on_feed :: "motor \<Rightarrow> app \<Rightarrow> outcome" where
  "on_feed m st =
     (if \<not> connected st \<or> \<not> stepper st then
        \<lparr>attrs = st, events = [Warning ''Not Connected'' ''Connect to the robot first.''],
         raised = None\<rparr>
      else
        (let st1 = st\<lparr>feed_btn := False, status_label := ''Status: Feeding...''\<rparr>;
             started = [Print ''[DEBUG] Feeding started'', GoFor 500 (- 3)];
             failed = (\<lambda>ev e.
               \<lparr>attrs = st1\<lparr>status_label := ''Status: Feed failed!''\<rparr>,
                events = ev @ [Print (''[DEBUG] Feed error: '' @ e), Critical ''Feed Error'' e],
                raised = None\<rparr>);
             reenable = (\<lambda>r.
               r\<lparr>attrs := (attrs r)\<lparr>feed_btn := True\<rparr>,
                 events := events r @ [Print ''[DEBUG] Re-enabling feed button'']\<rparr>)
         in reenable
              (case go_for_outcome m of
                 Raises e \<Rightarrow> failed started e
               | Cancelled \<Rightarrow> \<lparr>attrs = st1, events = started, raised = Some CancelledError\<rparr>
               | Returns \<Rightarrow>
                   (case stop_outcome m of
                      Raises e \<Rightarrow> failed (started @ [Stop]) e
                    | Cancelled \<Rightarrow>
                        \<lparr>attrs = st1, events = started @ [Stop], raised = Some CancelledError\<rparr>
                    | Returns \<Rightarrow>
                        \<lparr>attrs = st1\<lparr>status_label := ''Status: Feed complete!''\<rparr>,
                         events = started @ [Stop, Print ''[DEBUG] Feeding complete''],
                         raised = None\<rparr>))))"

subsection \<open>Notions of the specification\<close>

text \<open>
  The schedule invariant: entries sorted (lexicographically, by character code) and no
  entry twice.
\<close>

definition schedule_inv :: "string list \<Rightarrow> bool" where
  "schedule_inv xs = (sorted xs \<and> distinct xs)"

text \<open>
  Strict \<open>HH:MM\<close>: a two-digit hour from 00 to 23, a colon, a two-digit minute from 00
  to 59.
\<close>

definition strict_HHMM :: "string \<Rightarrow> bool" where
  "strict_HHMM s =
     (case s of
        [a, b, c, d, e] \<Rightarrow>
          is_digit a \<and> is_digit b \<and> 10 * digit_val a + digit_val b < 24 \<and> c = CHR '':'' \<and>
          is_digit d \<and> is_digit e \<and> 10 * digit_val d + digit_val e < 60
      | _ \<Rightarrow> False)"

text \<open>
  The attributes after a successful connection, with a given schedule and marker: the
  state in which the timer and the buttons do their work.
\<close>

definition running :: "string list \<Rightarrow> string option \<Rightarrow> app" where
  "running sch marker =
     \<lparr>stepper = True, camera = True, connected = True, schedule = sch,
      last_feed_time = marker, status_label = ''Status: Connected!'',
      schedule_list = sch, connect_btn = False, feed_btn = True, refresh_cam_btn = True\<rparr>"

definition at_time :: "nat \<Rightarrow> nat \<Rightarrow> datetime" where
  "at_time h m = \<lparr>hour = h, minute = m, second = 0\<rparr>"

text \<open>
  The json library on the documents of the examples below. \<open>example_dumps\<close> is
  \<open>json.dump\<close> on a list of strings that need no escaping (no quote, backslash, control
  or non-ASCII character): the strings in double quotes, separated by a comma and a space,
  in brackets. \<open>example_loads\<close> is \<open>json.load\<close> on four texts, the empty one among
  them; the examples use no other.
\<close>

fun join :: "string \<Rightarrow> string list \<Rightarrow> string" where
  "join sep [] = []"
| "join sep [x] = x"
| "join sep (x # y # ys) = x @ sep @ join sep (y # ys)"

definition example_dumps :: "json \<Rightarrow> string" where
  "example_dumps d =
     (case d of
        JList xs \<Rightarrow> ''['' @ join '', '' (map (\<lambda>x. ''\"'' @ x @ ''\"'') xs) @ '']''
      | JOther \<Rightarrow> ''null'')"

definition example_loads :: "string \<Rightarrow> string + json" where
  "example_loads t =
     (if t = ''[\"07:30\"]'' then Inr (JList [''07:30''])
      else if t = ''[\"12:00\", \"06:00\"]'' then Inr (JList [''12:00'', ''06:00''])
      else if t = ''{}'' then Inr JOther
      else Inl ''Expecting value'')"

text \<open>
  A stretch of the life of the application is a list of handler runs: a timer check (with
  the clock at the check, and how the stepper goes should the check start the feed task),
  a manual feed, a time added or removed, a connection attempt. \<open>check_schedule\<close> and
  \<open>remove_time\<close> run directly in a slot of the toolkit, and what the toolkit does with an
  exception that leaves a slot is not code of the repository: it ends the process or it
  reports the exception and goes on. \<open>aborts\<close> says which. \<open>step\<close> runs one handler,
  counts the feed tasks it started, and says whether the process has ended; a feed task
  that was started runs before the next handler, unless the process has ended.
  \<open>session\<close> runs the list up to the end of the process.
\<close>

datatype action =
    Tick datetime motor
  | ManualFeed motor
  | AddTime write_outcome "string \<times> bool"
  | RemoveTime write_outcome int
  | Connect connect_outcome

fun step ::
  "bool \<Rightarrow> (json \<Rightarrow> string) \<Rightarrow> action \<Rightarrow> app \<times> schedule_file
     \<Rightarrow> ((app \<times> schedule_file) \<times> nat) \<times> bool" where
  "step aborts dumps (Tick now m) (st, f) =
     (let r = check_schedule now st;
          n = (if FeedTask \<in> set (events r) then 1 else 0)
      in if raised r \<noteq> None \<and> aborts then (((attrs r, f), n), True)
         else if FeedTask \<in> set (events r) then
           (((attrs (scheduled_feed m (attrs r)), f), n), False)
         else (((attrs r, f), n), False))"
| "step aborts dumps (ManualFeed m) (st, f) = (((attrs (on_feed m st), f), 0), False)"
| "step aborts dumps (AddTime w dlg) (st, f) = ((fst (add_time dumps w dlg (st, f)), 0), False)"
| "step aborts dumps (RemoveTime w i) (st, f) =
     (case remove_time dumps w i (st, f) of
        Inl e \<Rightarrow> (((st, f), 0), aborts)
      | Inr (sf, ev) \<Rightarrow> ((sf, 0), False))"
| "step aborts dumps (Connect c) (st, f) = (((fst (on_connect c st), f), 0), False)"

fun session ::
  "bool \<Rightarrow> (json \<Rightarrow> string) \<Rightarrow> action list \<Rightarrow> app \<times> schedule_file
     \<Rightarrow> (app \<times> schedule_file) \<times> nat" where
  "session aborts dumps [] sf = (sf, 0)"
| "session aborts dumps (a # acts) sf =
     (case step aborts dumps a sf of
        ((sf1, n), ended) \<Rightarrow>
          if ended then (sf1, n)
          else (case session aborts dumps acts sf1 of (sf2, k) \<Rightarrow> (sf2, n + k)))"

section \<open>Properties\<close>

subsection \<open>Loading and saving\<close>

lemma load_schedule_cases:
  "fst (load_schedule loads f) = DEFAULT_SCHEDULE \<or>
   (\<exists>t. f = Content t \<and> loads t = Inr (JList (fst (load_schedule loads f))))"
  by (simp add: load_schedule_def split: schedule_file.split sum.split json.split)

text \<open>
  C6. Whatever the state of the file, \<open>load_schedule\<close> returns a list (it has no failing
  outcome: the exceptions of \<open>open\<close> and \<open>json.load\<close> end in the default). With the file
  absent, unreadable, empty or with a text that \<open>json.load\<close> rejects (an empty text is one:
  \<open>json.load\<close> raises on it), and also with a document that is not a list, the result is
  the default schedule of three entries. A result other than the default is the list the
  file holds.
\<close>

theorem load_schedule_default:
  "fst (load_schedule loads Absent) = DEFAULT_SCHEDULE \<and>
   fst (load_schedule loads (Unreadable e)) = DEFAULT_SCHEDULE \<and>
   (loads [] = Inl e \<longrightarrow> fst (load_schedule loads (Content [])) = DEFAULT_SCHEDULE) \<and>
   (loads t = Inl e \<longrightarrow> fst (load_schedule loads (Content t)) = DEFAULT_SCHEDULE) \<and>
   (loads t = Inr JOther \<longrightarrow> fst (load_schedule loads (Content t)) = DEFAULT_SCHEDULE) \<and>
   (fst (load_schedule loads f) \<noteq> DEFAULT_SCHEDULE \<longrightarrow>
      (\<exists>t'. f = Content t' \<and> loads t' = Inr (JList (fst (load_schedule loads f))))) \<and>
   DEFAULT_SCHEDULE = [''06:00'', ''12:00'', ''16:02''] \<and> length DEFAULT_SCHEDULE = 3"
proof -
  have "fst (load_schedule loads f) \<noteq> DEFAULT_SCHEDULE \<longrightarrow>
      (\<exists>t'. f = Content t' \<and> loads t' = Inr (JList (fst (load_schedule loads f))))"
    using load_schedule_cases [of loads f] by blast
  then show ?thesis
    by (simp add: load_schedule_def DEFAULT_SCHEDULE_def)
qed

theorem load_schedule_default_witness:
  "example_loads [] = Inl ''Expecting value'' \<and>
   fst (load_schedule example_loads (Content [])) = DEFAULT_SCHEDULE \<and>
   example_loads ''{}'' = Inr JOther \<and>
   fst (load_schedule example_loads (Content ''{}'')) = DEFAULT_SCHEDULE \<and>
   fst (load_schedule example_loads (Content ''[\"07:30\"]'')) \<noteq> DEFAULT_SCHEDULE \<and>
   (\<exists>t'. Content ''[\"07:30\"]'' = Content t' \<and>
      example_loads t' = Inr (JList (fst (load_schedule example_loads (Content ''[\"07:30\"]'')))))"
proof -
  have a: "example_loads [] = Inl ''Expecting value''"
    and b: "example_loads ''{}'' = Inr JOther"
    by (simp_all add: example_loads_def)
  have c: "fst (load_schedule example_loads (Content ''[\"07:30\"]'')) \<noteq> DEFAULT_SCHEDULE"
    by (simp add: load_schedule_def example_loads_def DEFAULT_SCHEDULE_def)
  show ?thesis
    using a b c
      load_schedule_default [of example_loads "''Expecting value''" "[]"
        "Content ''[\"07:30\"]''"]
      load_schedule_default [of example_loads "''Expecting value''" "''{}''" Absent]
    by blast
qed

text \<open>
  C7. Saving a schedule and loading it again gives the schedule back, when the write
  succeeds. The step through the text of the file is the json library's: the hypothesis
  is its round trip on the document saved, which holds for a list of strings.
\<close>

theorem save_then_load:
  assumes "loads (dumps (JList sch)) = Inr (JList sch)"
  shows "fst (load_schedule loads (fst (save_schedule dumps WriteOk sch f))) = sch"
  using assms by (simp add: save_schedule_def load_schedule_def)

theorem save_then_load_witness:
  "example_loads (example_dumps (JList [''12:00'', ''06:00''])) = Inr (JList [''12:00'', ''06:00'']) \<and>
   fst (load_schedule example_loads
          (fst (save_schedule example_dumps WriteOk [''12:00'', ''06:00''] Absent))) =
     [''12:00'', ''06:00'']"
proof -
  have h: "example_loads (example_dumps (JList [''12:00'', ''06:00''])) =
             Inr (JList [''12:00'', ''06:00''])"
    by (simp add: example_loads_def example_dumps_def)
  show ?thesis
    using h save_then_load [of example_loads example_dumps "[''12:00'', ''06:00'']" Absent]
    by blast
qed

text \<open>A write that fails at \<open>open\<close> leaves the file, and what a load returns, as it was.\<close>

lemma save_open_fails:
  "load_schedule loads (fst (save_schedule dumps (OpenFails e) sch f)) = load_schedule loads f"
  by (simp add: save_schedule_def)

subsection \<open>Removing a time\<close>

lemma length_pop: "i < length xs \<Longrightarrow> Suc (length (pop i xs)) = length xs"
  by (simp add: pop_def)

lemma nth_pop_before: "j < i \<Longrightarrow> i < length xs \<Longrightarrow> pop i xs ! j = xs ! j"
  by (simp add: pop_def nth_append)

lemma nth_pop_after:
  "i \<le> j \<Longrightarrow> i < length xs \<Longrightarrow> Suc j < length xs \<Longrightarrow> pop i xs ! j = xs ! Suc j"
  by (simp add: pop_def nth_append min_def)

lemma remove_time_schedule:
  "0 \<le> i \<Longrightarrow> nat i < length (schedule st) \<Longrightarrow>
   \<exists>st' f' ev. remove_time dumps w i (st, f) = Inr ((st', f'), ev) \<and>
      schedule st' = pop (nat i) (schedule st)"
  by (simp add: remove_time_def Let_def split: prod.split)

text \<open>
  C9. For a selected row \<open>i\<close> with \<open>0 \<le> i < size\<close>, \<open>remove_time\<close> returns normally;
  the new schedule is the old one without the element at \<open>i\<close>: one element shorter, the
  elements before \<open>i\<close> where they were, the elements after \<open>i\<close> moved down by one.
\<close>

theorem remove_time_removes:
  assumes "0 \<le> i" and "nat i < length (schedule st)"
  shows "\<exists>st' f' ev. remove_time dumps w i (st, f) = Inr ((st', f'), ev) \<and>
           Suc (length (schedule st')) = length (schedule st) \<and>
           schedule st' = take (nat i) (schedule st) @ drop (Suc (nat i)) (schedule st) \<and>
           (\<forall>j < nat i. schedule st' ! j = schedule st ! j) \<and>
           (\<forall>j. nat i \<le> j \<and> j < length (schedule st') \<longrightarrow>
                schedule st' ! j = schedule st ! Suc j)"
proof -
  from remove_time_schedule [OF assms] obtain st' f' ev
    where r: "remove_time dumps w i (st, f) = Inr ((st', f'), ev)"
      and s: "schedule st' = pop (nat i) (schedule st)"
    by blast
  have len: "Suc (length (schedule st')) = length (schedule st)"
    using s assms(2) by (simp add: length_pop)
  have before: "\<forall>j < nat i. schedule st' ! j = schedule st ! j"
    using s assms(2) by (simp add: nth_pop_before)
  have after: "\<forall>j. nat i \<le> j \<and> j < length (schedule st') \<longrightarrow>
                 schedule st' ! j = schedule st ! Suc j"
  proof (intro allI impI)
    fix j assume j: "nat i \<le> j \<and> j < length (schedule st')"
    with len have "Suc j < length (schedule st)" by simp
    with j s assms(2) show "schedule st' ! j = schedule st ! Suc j"
      by (simp add: nth_pop_after)
  qed
  from r len s before after show ?thesis
    by (simp add: pop_def)
qed

theorem remove_time_removes_witness:
  "(0::int) \<le> 1 \<and> nat 1 < length (schedule (running DEFAULT_SCHEDULE None)) \<and>
   (\<exists>st' f' ev.
      remove_time example_dumps WriteOk 1 (running DEFAULT_SCHEDULE None, Absent) =
        Inr ((st', f'), ev) \<and>
      schedule st' = [''06:00'', ''16:02''])"
proof -
  have a: "(0::int) \<le> 1" by simp
  have b: "nat 1 < length (schedule (running DEFAULT_SCHEDULE None))"
    by (simp add: running_def DEFAULT_SCHEDULE_def)
  from remove_time_removes [OF a b, of example_dumps WriteOk Absent] obtain st' f' ev
    where "remove_time example_dumps WriteOk 1 (running DEFAULT_SCHEDULE None, Absent) =
             Inr ((st', f'), ev)"
      and "schedule st' = take (nat 1) (schedule (running DEFAULT_SCHEDULE None)) @
             drop (Suc (nat 1)) (schedule (running DEFAULT_SCHEDULE None))"
    by blast
  then show ?thesis
    using a b by (simp add: running_def DEFAULT_SCHEDULE_def)
qed

subsection \<open>Accepted times\<close>

lemma digit_val_simps:
  "digit_val CHR ''0'' = 0" "digit_val CHR ''1'' = 1" "digit_val CHR ''2'' = 2"
  "digit_val CHR ''3'' = 3" "digit_val CHR ''4'' = 4" "digit_val CHR ''5'' = 5"
  "digit_val CHR ''6'' = 6" "digit_val CHR ''7'' = 7" "digit_val CHR ''8'' = 8"
  "digit_val CHR ''9'' = 9"
  by (simp_all add: digit_val_def)

lemma is_digit_cases:
  "is_digit c \<Longrightarrow>
   c = CHR ''0'' \<or> c = CHR ''1'' \<or> c = CHR ''2'' \<or> c = CHR ''3'' \<or> c = CHR ''4'' \<or>
   c = CHR ''5'' \<or> c = CHR ''6'' \<or> c = CHR ''7'' \<or> c = CHR ''8'' \<or> c = CHR ''9''"
  by (simp add: is_digit_def)

lemma hour_tens: "is_digit a \<Longrightarrow> 10 * digit_val a + n < 24 \<Longrightarrow> a \<in> set ''012''"
  by (drule is_digit_cases) (elim disjE; simp add: digit_val_simps)

lemma hour_units: "is_digit b \<Longrightarrow> 20 + digit_val b < 24 \<Longrightarrow> b \<in> set ''0123''"
  by (drule is_digit_cases) (elim disjE; simp add: digit_val_simps)

lemma hour_two_digits:
  "is_digit a \<Longrightarrow> is_digit b \<Longrightarrow> 10 * digit_val a + digit_val b < 24 \<Longrightarrow>
   (a = CHR ''2'' \<and> b \<in> set ''0123'') \<or> (a \<in> set ''01'' \<and> is_digit b)"
  using hour_tens [of a "digit_val b"] hour_units [of b]
  by (auto simp: digit_val_simps)

lemma minute_two_digits:
  "is_digit d \<Longrightarrow> 10 * digit_val d + n < 60 \<Longrightarrow> d \<in> set ''012345''"
  by (drule is_digit_cases) (elim disjE; simp add: digit_val_simps)

text \<open>\<open>strptime\<close> accepts every strict \<open>HH:MM\<close> string (and more, see below).\<close>

lemma strict_strptime:
  assumes "strict_HHMM s"
  shows "\<exists>h m. strptime_HM s = Some (h, m)"
proof -
  from assms obtain a b d e where s: "s = [a, b, CHR '':'', d, e]"
    and da: "is_digit a" and db: "is_digit b" and h: "10 * digit_val a + digit_val b < 24"
    and dd: "is_digit d" and de: "is_digit e" and m: "10 * digit_val d + digit_val e < 60"
    by (auto simp: strict_HHMM_def split: list.splits)
  from minute_two_digits [OF dd m] de
  have mm: "match_M [d, e] =
      (10 * digit_val d + digit_val e, []) # (if is_digit d then [(digit_val d, [e])] else [])"
    by (simp add: match_M_def)
  from hour_two_digits [OF da db h]
  have "\<exists>x rest. match_H s = (x, [CHR '':'', d, e]) # rest"
    unfolding s match_H_def by auto
  then obtain x rest where "match_H s = (x, [CHR '':'', d, e]) # rest" by blast
  then show ?thesis
    by (simp add: strptime_HM_def regex_HM_def match_colon_def mm)
qed

lemma strict_nonempty: "strict_HHMM s \<Longrightarrow> s \<noteq> []"
  by (auto simp: strict_HHMM_def)

subsection \<open>Adding a time\<close>

lemma add_time_accepted:
  "strptime_HM t = Some hm \<Longrightarrow> t \<noteq> [] \<Longrightarrow> t \<notin> set (schedule st) \<Longrightarrow>
   schedule (fst (fst (add_time dumps w (t, True) (st, f)))) = sort (schedule st @ [t])"
  by (simp add: add_time_def Let_def split: prod.split)

lemma add_time_schedule_cases:
  "schedule (fst (fst (add_time dumps w dlg (st, f)))) = schedule st \<or>
   (fst dlg \<notin> set (schedule st) \<and>
    schedule (fst (fst (add_time dumps w dlg (st, f)))) = sort (schedule st @ [fst dlg]))"
  by (cases dlg) (simp add: add_time_def Let_def split: prod.split option.split)

text \<open>
  C8, as the code has it. A strict \<open>HH:MM\<close> string that is not in the schedule, confirmed
  in the dialog, is added: the schedule is one longer, sorted, and holds the new string
  and the entries it held before. \<open>add_time\<close> removes no entry, so the result has no
  entry twice exactly when the schedule had none before.
\<close>

theorem add_time_adds:
  assumes "strict_HHMM t" and "t \<notin> set (schedule st)"
  shows "length (schedule (fst (fst (add_time dumps w (t, True) (st, f))))) =
           Suc (length (schedule st)) \<and>
         sorted (schedule (fst (fst (add_time dumps w (t, True) (st, f))))) \<and>
         set (schedule (fst (fst (add_time dumps w (t, True) (st, f))))) =
           insert t (set (schedule st)) \<and>
         (distinct (schedule (fst (fst (add_time dumps w (t, True) (st, f))))) \<longleftrightarrow>
            distinct (schedule st))"
proof -
  from strict_strptime [OF assms(1)] obtain h m where "strptime_HM t = Some (h, m)"
    by blast
  then have "schedule (fst (fst (add_time dumps w (t, True) (st, f)))) =
               sort (schedule st @ [t])"
    using strict_nonempty [OF assms(1)] assms(2) by (rule add_time_accepted)
  then show ?thesis
    using assms(2) by simp
qed

theorem add_time_adds_witness:
  "strict_HHMM ''07:30'' \<and> ''07:30'' \<notin> set (schedule (running DEFAULT_SCHEDULE None)) \<and>
   length (schedule (fst (fst (add_time example_dumps WriteOk (''07:30'', True)
      (running DEFAULT_SCHEDULE None, Absent))))) = 4 \<and>
   ''07:30'' \<in> set (schedule (fst (fst (add_time example_dumps WriteOk (''07:30'', True)
      (running DEFAULT_SCHEDULE None, Absent))))) \<and>
   sorted (schedule (fst (fst (add_time example_dumps WriteOk (''07:30'', True)
      (running DEFAULT_SCHEDULE None, Absent))))) \<and>
   distinct (schedule (fst (fst (add_time example_dumps WriteOk (''07:30'', True)
      (running DEFAULT_SCHEDULE None, Absent)))))"
proof -
  have a: "strict_HHMM ''07:30''"
    by (simp add: strict_HHMM_def is_digit_def digit_val_simps)
  have b: "''07:30'' \<notin> set (schedule (running DEFAULT_SCHEDULE None))"
    and c: "distinct (schedule (running DEFAULT_SCHEDULE None))"
    and d: "length (schedule (running DEFAULT_SCHEDULE None)) = 3"
    by (simp_all add: running_def DEFAULT_SCHEDULE_def)
  show ?thesis
    using a b c d add_time_adds [OF a b, of example_dumps WriteOk Absent] by simp
qed

text \<open>
  The claim as it is written promises a schedule without duplicates after every such
  add. A file that holds \<open>["06:00", "06:00"]\<close> is loaded as it is; adding \<open>07:30\<close> to
  that schedule leaves \<open>06:00\<close> in it twice.
\<close>

theorem add_time_keeps_duplicates:
  "strict_HHMM ''07:30'' \<and> ''07:30'' \<notin> set (schedule (running [''06:00'', ''06:00''] None)) \<and>
   \<not> distinct (schedule (fst (fst (add_time example_dumps WriteOk (''07:30'', True)
      (running [''06:00'', ''06:00''] None, Absent)))))"
proof -
  have a: "strict_HHMM ''07:30''"
    by (simp add: strict_HHMM_def is_digit_def digit_val_simps)
  have b: "''07:30'' \<notin> set (schedule (running [''06:00'', ''06:00''] None))"
    by (simp add: running_def)
  from strict_strptime [OF a] obtain h m where "strptime_HM ''07:30'' = Some (h, m)"
    by blast
  then have "schedule (fst (fst (add_time example_dumps WriteOk (''07:30'', True)
      (running [''06:00'', ''06:00''] None, Absent)))) =
      sort (schedule (running [''06:00'', ''06:00''] None) @ [''07:30''])"
    using strict_nonempty [OF a] b by (rule add_time_accepted)
  then show ?thesis
    using a b by (simp add: running_def)
qed

subsection \<open>The schedule invariant\<close>

lemma sorted_pop: "sorted xs \<Longrightarrow> sorted (pop i xs)"
proof -
  assume s: "sorted xs"
  have "sorted (take i xs @ drop i xs)" using s by simp
  then have cross: "\<forall>x\<in>set (take i xs). \<forall>y\<in>set (drop i xs). x \<le> y"
    by (simp only: sorted_append) blast
  have "set (drop (Suc i) xs) \<subseteq> set (drop i xs)"
    by (rule set_drop_subset_set_drop) simp
  with cross have "\<forall>x\<in>set (take i xs). \<forall>y\<in>set (drop (Suc i) xs). x \<le> y" by blast
  with s show ?thesis
    by (simp add: pop_def sorted_append)
qed

lemma distinct_pop: "distinct xs \<Longrightarrow> distinct (pop i xs)"
proof -
  assume d: "distinct xs"
  have "distinct (take i xs @ drop i xs)" using d by simp
  then have cross: "set (take i xs) \<inter> set (drop i xs) = {}"
    by (simp only: distinct_append)
  have "set (drop (Suc i) xs) \<subseteq> set (drop i xs)"
    by (rule set_drop_subset_set_drop) simp
  with cross have "set (take i xs) \<inter> set (drop (Suc i) xs) = {}" by blast
  with d show ?thesis
    by (simp add: pop_def)
qed

lemma schedule_inv_default: "schedule_inv DEFAULT_SCHEDULE"
  by (simp add: schedule_inv_def DEFAULT_SCHEDULE_def)

lemma schedule_inv_add_time:
  assumes "schedule_inv (schedule st)"
  shows "schedule_inv (schedule (fst (fst (add_time dumps w dlg (st, f)))))"
  using add_time_schedule_cases [of dumps w dlg st f] assms
  by (auto simp: schedule_inv_def)

lemma remove_time_schedule_cases:
  "remove_time dumps w i (st, f) = Inr ((st', f'), ev) \<Longrightarrow>
   schedule st' = schedule st \<or> schedule st' = pop (nat i) (schedule st)"
  by (auto simp: remove_time_def Let_def split: if_splits prod.splits)

lemma schedule_inv_remove_time:
  assumes "schedule_inv (schedule st)"
    and "remove_time dumps w i (st, f) = Inr ((st', f'), ev)"
  shows "schedule_inv (schedule st')"
  using remove_time_schedule_cases [OF assms(2)] assms(1)
  by (auto simp: schedule_inv_def sorted_pop distinct_pop)

lemma schedule_inv_load:
  "schedule_inv (fst (load_schedule loads f)) \<longleftrightarrow>
   (\<forall>t xs. f = Content t \<and> loads t = Inr (JList xs) \<longrightarrow> schedule_inv xs)"
  by (auto simp: load_schedule_def schedule_inv_default
      split: schedule_file.splits sum.splits json.splits)

text \<open>
  C5, as the code has it. \<open>add_time\<close> and \<open>remove_time\<close> keep the invariant, and the
  default schedule has it. \<open>load_schedule\<close> returns the list of the file as it is stored,
  without sorting it or removing duplicates: what it returns has the invariant exactly
  when the stored list has it.
\<close>

theorem schedule_inv_lifecycle:
  "schedule_inv DEFAULT_SCHEDULE \<and>
   (schedule_inv (schedule st) \<longrightarrow>
      schedule_inv (schedule (fst (fst (add_time dumps w dlg (st, f)))))) \<and>
   (schedule_inv (schedule st) \<and> remove_time dumps w i (st, f) = Inr ((st', f'), ev) \<longrightarrow>
      schedule_inv (schedule st')) \<and>
   (schedule_inv (fst (load_schedule loads g)) \<longleftrightarrow>
      (\<forall>t xs. g = Content t \<and> loads t = Inr (JList xs) \<longrightarrow> schedule_inv xs))"
  using schedule_inv_default schedule_inv_add_time [of st dumps w dlg f]
    schedule_inv_remove_time [of st dumps w i f st' f' ev] schedule_inv_load [of loads g]
  by blast

theorem schedule_inv_lifecycle_witness:
  "schedule_inv (schedule (running DEFAULT_SCHEDULE None)) \<and>
   schedule_inv (schedule (fst (fst (add_time example_dumps WriteOk (''07:30'', True)
      (running DEFAULT_SCHEDULE None, Absent))))) \<and>
   remove_time example_dumps WriteOk 1 (running DEFAULT_SCHEDULE None, Absent) =
     Inr ((running [''06:00'', ''16:02''] None, Content ''[\"06:00\", \"16:02\"]''), []) \<and>
   schedule_inv (schedule (running [''06:00'', ''16:02''] None)) \<and>
   schedule_inv (fst (load_schedule example_loads (Content ''[\"07:30\"]'')))"
proof -
  have a: "schedule_inv (schedule (running DEFAULT_SCHEDULE None))"
    by (simp add: running_def schedule_inv_default)
  have r: "remove_time example_dumps WriteOk 1 (running DEFAULT_SCHEDULE None, Absent) =
     Inr ((running [''06:00'', ''16:02''] None, Content ''[\"06:00\", \"16:02\"]''), [])"
    by (simp add: remove_time_def running_def DEFAULT_SCHEDULE_def pop_def save_schedule_def
        example_dumps_def Let_def)
  have l: "\<forall>t xs. Content ''[\"07:30\"]'' = Content t \<and> example_loads t = Inr (JList xs) \<longrightarrow>
             schedule_inv xs"
    by (simp add: example_loads_def schedule_inv_def)
  show ?thesis
    using a r l
      schedule_inv_lifecycle [of "running DEFAULT_SCHEDULE None" example_dumps WriteOk
        "(''07:30'', True)" Absent 1 "running [''06:00'', ''16:02''] None"
        "Content ''[\"06:00\", \"16:02\"]''" "[]" example_loads "Content ''[\"07:30\"]''"]
    by blast
qed

text \<open>
  The claim as it is written fails at the load: a file that holds the list
  \<open>["12:00", "06:00"]\<close> is loaded as it is, and the list is not sorted.
\<close>

theorem load_schedule_unsorted:
  "\<not> schedule_inv (fst (load_schedule example_loads (Content ''[\"12:00\", \"06:00\"]'')))"
  by (simp add: load_schedule_def example_loads_def schedule_inv_def)

subsection \<open>The schedule check\<close>

lemma strftime_examples:
  "strftime_HM (at_time 6 0) = ''06:00''" "strftime_HM (at_time 6 1) = ''06:01''"
  "strftime_HM (at_time 12 0) = ''12:00''" "strftime_HM (at_time 6 (Suc 0)) = ''06:01''"
  by (simp_all add: strftime_HM_def at_time_def pad2_def digit_char_def)

lemma should_feed_iff:
  "should_feed now st \<longleftrightarrow>
     connected st \<and> stepper st \<and> strftime_HM now \<in> set (schedule st) \<and>
     last_feed_time st \<noteq> Some (strftime_HM now)"
  by (auto simp: should_feed_def check_schedule_def Let_def)

lemma new_marker_eq:
  "new_marker now st = (if should_feed now st then Some (strftime_HM now) else last_feed_time st)"
  by (simp add: new_marker_def should_feed_def check_schedule_def Let_def)

lemma check_schedule_quiet:
  "\<not> should_feed now st \<Longrightarrow> check_schedule now st = \<lparr>attrs = st, events = [], raised = None\<rparr>"
  by (simp add: should_feed_def check_schedule_def Let_def split: if_splits)

lemma check_schedule_fired:
  "should_feed now st \<Longrightarrow>
   attrs (check_schedule now st) = st\<lparr>last_feed_time := Some (strftime_HM now)\<rparr>"
  by (simp add: should_feed_def check_schedule_def Let_def split: if_splits)

text \<open>
  A check that fires does not return: it ends with the \<open>TypeError\<close> of \<open>create_task\<close>.
  A check that does not fire returns.
\<close>

lemma check_schedule_raised:
  "raised (check_schedule now st) = (if should_feed now st then Some TypeError else None)"
  by (simp add: should_feed_def check_schedule_def Let_def)

text \<open>
  C1, as the code has it. The check fires (it starts the feed task) exactly when the
  application is connected and holds the stepper, the clock formatted as \<open>HH:MM\<close> is in
  the schedule, and the marker differs from it; when it fires the marker becomes that
  string, and otherwise the marker is unchanged. Before the connection the check returns
  at once and never fires.
\<close>

theorem check_schedule_fires:
  "(should_feed now st \<longleftrightarrow>
      connected st \<and> stepper st \<and> strftime_HM now \<in> set (schedule st) \<and>
      last_feed_time st \<noteq> Some (strftime_HM now)) \<and>
   new_marker now st = (if should_feed now st then Some (strftime_HM now) else last_feed_time st)"
  using should_feed_iff [of now st] new_marker_eq [of now st] by blast

lemma running_sel:
  "connected (running sch mk)" "stepper (running sch mk)" "schedule (running sch mk) = sch"
  "last_feed_time (running sch mk) = mk"
  by (simp_all add: running_def)

text \<open>
  The scenario of the specification, in the connected application: the schedule
  \<open>["06:00", "12:00"]\<close>, first without a marker, then with the marker \<open>06:00\<close> that the
  first check leaves.
\<close>

theorem check_schedule_fires_witness:
  "should_feed (at_time 6 0) (running [''06:00'', ''12:00''] None) \<and>
   new_marker (at_time 6 0) (running [''06:00'', ''12:00''] None) = Some ''06:00'' \<and>
   \<not> should_feed (at_time 6 0) (running [''06:00'', ''12:00''] (Some ''06:00'')) \<and>
   \<not> should_feed (at_time 6 1) (running [''06:00'', ''12:00''] (Some ''06:00'')) \<and>
   new_marker (at_time 6 1) (running [''06:00'', ''12:00''] (Some ''06:00'')) = Some ''06:00'' \<and>
   should_feed (at_time 12 0) (running [''06:00'', ''12:00''] (Some ''06:00'')) \<and>
   new_marker (at_time 12 0) (running [''06:00'', ''12:00''] (Some ''06:00'')) = Some ''12:00''"
  using check_schedule_fires [of "at_time 6 0" "running [''06:00'', ''12:00''] None"]
    check_schedule_fires [of "at_time 6 0" "running [''06:00'', ''12:00''] (Some ''06:00'')"]
    check_schedule_fires [of "at_time 6 1" "running [''06:00'', ''12:00''] (Some ''06:00'')"]
    check_schedule_fires [of "at_time 12 0" "running [''06:00'', ''12:00''] (Some ''06:00'')"]
  by (simp add: running_sel strftime_examples)

lemma first_check_leaves:
  "attrs (check_schedule (at_time 6 0) (running sch None)) =
     (if ''06:00'' \<in> set sch then running sch (Some ''06:00'') else running sch None)"
  by (simp add: check_schedule_def strftime_examples running_def Let_def)

text \<open>
  Without the condition on the connection the equivalence fails: at start-up, with the
  default schedule and no marker, the check at 06:00 does not fire.
\<close>

theorem check_schedule_not_connected:
  "\<not> (should_feed (at_time 6 0) (fst (init example_loads Absent)) \<longleftrightarrow>
      strftime_HM (at_time 6 0) \<in> set (schedule (fst (init example_loads Absent))) \<and>
      last_feed_time (fst (init example_loads Absent)) \<noteq> Some (strftime_HM (at_time 6 0)))"
  by (simp add: should_feed_iff init_def load_schedule_def DEFAULT_SCHEDULE_def strftime_examples)

text \<open>
  C3. The claim asks that a check at a minute outside the schedule resets the marker, so
  that the time that has fired fires again when its minute comes back. The code never
  clears the marker: a check at a minute outside the schedule returns with the
  attributes as they were, and a later check at the minute the marker holds does not
  fire.
\<close>

theorem marker_kept_outside_schedule:
  assumes "strftime_HM now \<notin> set (schedule st)"
  shows "check_schedule now st = \<lparr>attrs = st, events = [], raised = None\<rparr> \<and>
         new_marker now st = last_feed_time st \<and>
         (last_feed_time st = Some (strftime_HM later) \<longrightarrow>
            \<not> should_feed later (attrs (check_schedule now st)))"
proof -
  from assms have q: "\<not> should_feed now st" by (simp add: should_feed_iff)
  then have "check_schedule now st = \<lparr>attrs = st, events = [], raised = None\<rparr>"
    by (rule check_schedule_quiet)
  with q show ?thesis by (simp add: should_feed_iff new_marker_eq)
qed

text \<open>
  With the schedule \<open>["06:00"]\<close> alone: the check at 06:00 fires and leaves the marker
  \<open>06:00\<close>; after the check at 06:01 the marker is still \<open>06:00\<close>; the next check
  at 06:00 does not fire. The feeder feeds once and not again on the following days.
\<close>

theorem marker_not_reset:
  "should_feed (at_time 6 0) (running [''06:00''] None) \<and>
   strftime_HM (at_time 6 1) \<notin>
     set (schedule (attrs (check_schedule (at_time 6 0) (running [''06:00''] None)))) \<and>
   new_marker (at_time 6 1) (attrs (check_schedule (at_time 6 0) (running [''06:00''] None))) =
     Some ''06:00'' \<and>
   \<not> should_feed (at_time 6 0)
       (attrs (check_schedule (at_time 6 1)
          (attrs (check_schedule (at_time 6 0) (running [''06:00''] None)))))"
proof -
  have f: "should_feed (at_time 6 0) (running [''06:00''] None)"
    by (simp add: should_feed_iff running_sel strftime_examples)
  have s1: "attrs (check_schedule (at_time 6 0) (running [''06:00''] None)) =
              running [''06:00''] (Some ''06:00'')"
    by (simp add: first_check_leaves)
  have a: "strftime_HM (at_time 6 1) \<notin> set (schedule (running [''06:00''] (Some ''06:00'')))"
    and b: "last_feed_time (running [''06:00''] (Some ''06:00'')) = Some (strftime_HM (at_time 6 0))"
    and c: "last_feed_time (running [''06:00''] (Some ''06:00'')) = Some ''06:00''"
    by (simp_all add: running_sel strftime_examples)
  note t = marker_kept_outside_schedule [OF a, of "at_time 6 0"]
  from t have e2: "new_marker (at_time 6 1) (running [''06:00''] (Some ''06:00'')) =
      last_feed_time (running [''06:00''] (Some ''06:00''))"
    by blast
  from t b have g: "\<not> should_feed (at_time 6 0)
      (attrs (check_schedule (at_time 6 1) (running [''06:00''] (Some ''06:00''))))"
    by blast
  from e2 c have n: "new_marker (at_time 6 1) (running [''06:00''] (Some ''06:00'')) =
      Some ''06:00''"
    by (simp only:)
  show ?thesis
    unfolding s1 using f a n g by blast
qed

text \<open>
  With a second entry the same minute does fire again, once the other entry has fired in
  between and replaced the marker.
\<close>

lemma other_entry_fires_again:
  "should_feed (at_time 6 0) (running [''06:00'', ''12:00''] (Some ''12:00''))"
  by (simp add: should_feed_iff running_sel strftime_examples)

subsection \<open>Feeding\<close>

lemma scheduled_feed_stops:
  "count_list (events (scheduled_feed m st)) Stop =
     (if connected st \<and> stepper st \<and> go_for_outcome m = Returns then 1 else 0)"
  by (simp add: scheduled_feed_def Let_def split: call_outcome.split)

lemma on_feed_stops:
  "count_list (events (on_feed m st)) Stop =
     (if connected st \<and> stepper st \<and> go_for_outcome m = Returns then 1 else 0)"
  by (simp add: on_feed_def Let_def split: call_outcome.split)

text \<open>
  C2, as the code has it. \<open>stop\<close> comes after \<open>go_for\<close> inside the \<open>try\<close> block and
  nowhere else. The manual feed and the scheduled feed alike call it once when \<open>go_for\<close>
  returns, and not at all when \<open>go_for\<close> raises or when the application is not
  connected.
\<close>

theorem feed_stop_count:
  "count_list (events (on_feed m st)) Stop =
     (if connected st \<and> stepper st \<and> go_for_outcome m = Returns then 1 else 0) \<and>
   count_list (events (scheduled_feed m st)) Stop =
     (if connected st \<and> stepper st \<and> go_for_outcome m = Returns then 1 else 0)"
  using on_feed_stops [of m st] scheduled_feed_stops [of m st] by blast

theorem feed_stop_count_witness:
  "connected (running DEFAULT_SCHEDULE None) \<and> stepper (running DEFAULT_SCHEDULE None) \<and>
   count_list (events (on_feed \<lparr>go_for_outcome = Returns, stop_outcome = Raises ''timeout''\<rparr>
      (running DEFAULT_SCHEDULE None))) Stop = 1 \<and>
   count_list (events (scheduled_feed \<lparr>go_for_outcome = Returns, stop_outcome = Returns\<rparr>
      (running DEFAULT_SCHEDULE None))) Stop = 1 \<and>
   count_list (events (on_feed \<lparr>go_for_outcome = Cancelled, stop_outcome = Returns\<rparr>
      (running DEFAULT_SCHEDULE None))) Stop = 0"
  using feed_stop_count [of "\<lparr>go_for_outcome = Returns, stop_outcome = Raises ''timeout''\<rparr>"
      "running DEFAULT_SCHEDULE None"]
    feed_stop_count [of "\<lparr>go_for_outcome = Returns, stop_outcome = Returns\<rparr>"
      "running DEFAULT_SCHEDULE None"]
    feed_stop_count [of "\<lparr>go_for_outcome = Cancelled, stop_outcome = Returns\<rparr>"
      "running DEFAULT_SCHEDULE None"]
  by (simp add: running_sel)

text \<open>
  When \<open>go_for\<close> raises, neither handler calls \<open>stop\<close>.
\<close>

theorem feed_run_fails_no_stop:
  "count_list (events (on_feed \<lparr>go_for_outcome = Raises ''timeout'', stop_outcome = Returns\<rparr>
      (running DEFAULT_SCHEDULE None))) Stop \<noteq> 1 \<and>
   count_list (events (scheduled_feed
      \<lparr>go_for_outcome = Raises ''timeout'', stop_outcome = Returns\<rparr>
      (running DEFAULT_SCHEDULE None))) Stop \<noteq> 1"
  by (simp add: on_feed_stops scheduled_feed_stops)

text \<open>
  The rest of what the two handlers do. \<open>go_for\<close> is called once in a connected
  application. An \<open>Exception\<close> of \<open>go_for\<close> or \<open>stop\<close> is caught: the handler returns,
  with the failure in the status line. A \<open>CancelledError\<close> is not caught: it leaves the
  handler and the status line stays at the feeding message. The manual feed enables its
  button again in both cases.
\<close>

lemma scheduled_feed_runs:
  "count_list (events (scheduled_feed m st)) (GoFor 500 (- 3)) =
     (if connected st \<and> stepper st then 1 else 0)"
  by (simp add: scheduled_feed_def Let_def split: call_outcome.split)

lemma on_feed_runs:
  "count_list (events (on_feed m st)) (GoFor 500 (- 3)) =
     (if connected st \<and> stepper st then 1 else 0)"
  by (simp add: on_feed_def Let_def split: call_outcome.split)

lemma on_feed_button:
  "connected st \<and> stepper st \<Longrightarrow> feed_btn (attrs (on_feed m st))"
  by (simp add: on_feed_def Let_def split: call_outcome.split)

lemma on_feed_raised:
  "raised (on_feed m st) =
     (if connected st \<and> stepper st \<and>
         (go_for_outcome m = Cancelled \<or> go_for_outcome m = Returns \<and> stop_outcome m = Cancelled)
      then Some CancelledError else None)"
  by (simp add: on_feed_def Let_def split: call_outcome.split)

lemma scheduled_feed_raised:
  "raised (scheduled_feed m st) =
     (if connected st \<and> stepper st \<and>
         (go_for_outcome m = Cancelled \<or> go_for_outcome m = Returns \<and> stop_outcome m = Cancelled)
      then Some CancelledError else None)"
  by (simp add: scheduled_feed_def Let_def split: call_outcome.split)

lemma on_feed_caught:
  "connected st \<Longrightarrow> stepper st \<Longrightarrow> go_for_outcome m = Raises e \<Longrightarrow>
   raised (on_feed m st) = None \<and> Critical ''Feed Error'' e \<in> set (events (on_feed m st)) \<and>
   status_label (attrs (on_feed m st)) = ''Status: Feed failed!''"
  by (simp add: on_feed_def Let_def)

lemma on_feed_cancelled:
  "connected st \<Longrightarrow> stepper st \<Longrightarrow> go_for_outcome m = Cancelled \<Longrightarrow>
   raised (on_feed m st) = Some CancelledError \<and>
   status_label (attrs (on_feed m st)) = ''Status: Feeding...'' \<and>
   events (on_feed m st) =
     [Print ''[DEBUG] Feeding started'', GoFor 500 (- 3),
      Print ''[DEBUG] Re-enabling feed button'']"
  by (simp add: on_feed_def Let_def)

lemma scheduled_feed_keeps:
  "last_feed_time (attrs (scheduled_feed m st)) = last_feed_time st"
  "connected (attrs (scheduled_feed m st)) = connected st"
  "stepper (attrs (scheduled_feed m st)) = stepper st"
  "schedule (attrs (scheduled_feed m st)) = schedule st"
  by (simp_all add: scheduled_feed_def Let_def split: call_outcome.split)

subsection \<open>One scheduled feed per minute\<close>

lemma check_schedule_marked:
  "last_feed_time st = Some (strftime_HM now) \<Longrightarrow>
   check_schedule now st = \<lparr>attrs = st, events = [], raised = None\<rparr>"
  by (simp add: check_schedule_def Let_def)

lemma on_feed_keeps: "last_feed_time (attrs (on_feed m st)) = last_feed_time st"
  by (simp add: on_feed_def Let_def split: call_outcome.split)

lemma on_connect_keeps: "last_feed_time (fst (on_connect c st)) = last_feed_time st"
  by (simp add: on_connect_def connection_failed_def Let_def split: connect_outcome.split)

lemma add_time_keeps:
  "last_feed_time (fst (fst (add_time dumps w dlg (st, f)))) = last_feed_time st"
  by (cases dlg) (simp add: add_time_def Let_def split: option.split prod.split)

lemma remove_time_keeps:
  "remove_time dumps w i (st, f) = Inr ((st', f'), ev) \<Longrightarrow> last_feed_time st' = last_feed_time st"
  by (auto simp: remove_time_def Let_def split: if_splits prod.splits)

text \<open>
  Only the timer check writes the marker and starts feed tasks.
\<close>

lemma step_no_tick_keeps:
  "\<forall>d m. a \<noteq> Tick d m \<Longrightarrow>
   last_feed_time (fst (fst (fst (step aborts dumps a (st, f))))) = last_feed_time st \<and>
   snd (fst (step aborts dumps a (st, f))) = 0"
proof (cases a)
  case (RemoveTime w i)
  then show ?thesis
    by (auto simp: remove_time_keeps split: sum.split)
qed (simp_all add: on_feed_keeps on_connect_keeps add_time_keeps)

lemma step_marked:
  assumes "last_feed_time st = Some t" and "\<forall>d m. a = Tick d m \<longrightarrow> strftime_HM d = t"
  shows "last_feed_time (fst (fst (fst (step aborts dumps a (st, f))))) = Some t \<and>
         snd (fst (step aborts dumps a (st, f))) = 0"
proof (cases "\<exists>d m. a = Tick d m")
  case True
  then obtain d m where a: "a = Tick d m" by blast
  with assms have "check_schedule d st = \<lparr>attrs = st, events = [], raised = None\<rparr>"
    by (simp add: check_schedule_marked)
  with a assms(1) show ?thesis by simp
next
  case False
  with step_no_tick_keeps [of a aborts dumps st f] assms(1) show ?thesis by simp
qed

lemma step_count:
  assumes "\<forall>d m. a = Tick d m \<longrightarrow> strftime_HM d = t"
  shows "snd (fst (step aborts dumps a (st, f))) \<le> 1 \<and>
         (snd (fst (step aborts dumps a (st, f))) = 1 \<longrightarrow>
            last_feed_time (fst (fst (fst (step aborts dumps a (st, f))))) = Some t)"
proof (cases "\<exists>d m. a = Tick d m")
  case True
  then obtain d m where a: "a = Tick d m" by blast
  with assms have d: "strftime_HM d = t" by simp
  show ?thesis
  proof (cases "should_feed d st")
    case True
    then have "FeedTask \<in> set (events (check_schedule d st))"
      by (simp add: should_feed_def)
    with a True d show ?thesis
      by (simp add: Let_def scheduled_feed_keeps check_schedule_fired)
  next
    case False
    then have "check_schedule d st = \<lparr>attrs = st, events = [], raised = None\<rparr>"
      by (rule check_schedule_quiet)
    with a show ?thesis by simp
  qed
next
  case False
  with step_no_tick_keeps [of a aborts dumps st f] show ?thesis by simp
qed

lemma session_marked:
  "last_feed_time (fst sf) = Some t \<Longrightarrow>
   \<forall>d m. Tick d m \<in> set acts \<longrightarrow> strftime_HM d = t \<Longrightarrow>
   snd (session aborts dumps acts sf) = 0"
proof (induction acts arbitrary: sf)
  case Nil
  then show ?case by simp
next
  case (Cons a acts)
  obtain st f where sf: "sf = (st, f)" by (cases sf)
  from Cons.prems(2) have a: "\<forall>d m. a = Tick d m \<longrightarrow> strftime_HM d = t"
    and rest: "\<forall>d m. Tick d m \<in> set acts \<longrightarrow> strftime_HM d = t"
    by auto
  from Cons.prems(1) sf have "last_feed_time st = Some t" by simp
  from step_marked [OF this a, of aborts dumps f]
  have m: "last_feed_time (fst (fst (fst (step aborts dumps a (st, f))))) = Some t"
    and z: "snd (fst (step aborts dumps a (st, f))) = 0"
    by simp_all
  from Cons.IH [OF m rest] z sf show ?case
    by (simp add: split_beta)
qed

lemma session_once:
  "\<forall>d m. Tick d m \<in> set acts \<longrightarrow> strftime_HM d = t \<Longrightarrow>
   snd (session aborts dumps acts sf) \<le> 1"
proof (induction acts arbitrary: sf)
  case Nil
  then show ?case by simp
next
  case (Cons a acts)
  obtain st f where sf: "sf = (st, f)" by (cases sf)
  from Cons.prems have a: "\<forall>d m. a = Tick d m \<longrightarrow> strftime_HM d = t"
    and rest: "\<forall>d m. Tick d m \<in> set acts \<longrightarrow> strftime_HM d = t"
    by auto
  from step_count [OF a, of aborts dumps st f]
  have le: "snd (fst (step aborts dumps a (st, f))) \<le> 1"
    and mk: "snd (fst (step aborts dumps a (st, f))) = 1 \<longrightarrow>
               last_feed_time (fst (fst (fst (step aborts dumps a (st, f))))) = Some t"
    by simp_all
  show ?case
  proof (cases "snd (fst (step aborts dumps a (st, f))) = 1")
    case True
    with mk have "last_feed_time (fst (fst (fst (step aborts dumps a (st, f))))) = Some t"
      by simp
    from session_marked [OF this rest, of aborts dumps] True sf show ?thesis
      by (simp add: split_beta)
  next
    case False
    with le have "snd (fst (step aborts dumps a (st, f))) = 0" by simp
    with Cons.IH [OF rest, of "fst (fst (step aborts dumps a (st, f)))"] sf show ?thesis
      by (simp add: split_beta)
  qed
qed

lemma check_schedule_then_feed:
  assumes "should_feed now st"
  shows "last_feed_time (attrs (check_schedule now st)) = Some (strftime_HM now)"
    and "last_feed_time (attrs (scheduled_feed m (attrs (check_schedule now st)))) =
           Some (strftime_HM now)"
    and "strftime_HM now' = strftime_HM now \<Longrightarrow>
           \<not> should_feed now' (attrs (scheduled_feed m (attrs (check_schedule now st))))"
  using assms by (simp_all add: check_schedule_fired scheduled_feed_keeps should_feed_iff)

text \<open>
  C10. When the check fires, the marker is the current \<open>HH:MM\<close> string in the attributes
  the feed task starts from, and the task leaves it there however the stepper goes (it
  returns, raises, or is cancelled); a check later in the same minute does not fire.
  Over any list of handler runs whose timer checks all fall in one minute, at most one
  feed task is started, whether an exception that leaves a slot ends the process or not.
\<close>

theorem scheduled_feed_once:
  "(should_feed now st \<longrightarrow>
      last_feed_time (attrs (check_schedule now st)) = Some (strftime_HM now) \<and>
      last_feed_time (attrs (scheduled_feed m (attrs (check_schedule now st)))) =
        Some (strftime_HM now) \<and>
      (strftime_HM now' = strftime_HM now \<longrightarrow>
         \<not> should_feed now' (attrs (scheduled_feed m (attrs (check_schedule now st)))))) \<and>
   ((\<forall>d m. Tick d m \<in> set acts \<longrightarrow> strftime_HM d = t) \<longrightarrow>
      snd (session aborts dumps acts sf) \<le> 1)"
  using check_schedule_then_feed(1) [of now st] check_schedule_then_feed(2) [of now st m]
    check_schedule_then_feed(3) [of now st now' m] session_once [of acts t aborts dumps sf]
  by blast

theorem scheduled_feed_once_witness:
  "should_feed (at_time 6 0) (running [''06:00'', ''12:00''] None) \<and>
   strftime_HM \<lparr>hour = 6, minute = 0, second = 30\<rparr> = strftime_HM (at_time 6 0) \<and>
   \<not> should_feed \<lparr>hour = 6, minute = 0, second = 30\<rparr>
       (attrs (scheduled_feed \<lparr>go_for_outcome = Raises ''timeout'', stop_outcome = Returns\<rparr>
          (attrs (check_schedule (at_time 6 0) (running [''06:00'', ''12:00''] None))))) \<and>
   snd (session False example_dumps
     [Tick (at_time 6 0) \<lparr>go_for_outcome = Raises ''timeout'', stop_outcome = Returns\<rparr>,
      ManualFeed \<lparr>go_for_outcome = Returns, stop_outcome = Returns\<rparr>,
      Tick \<lparr>hour = 6, minute = 0, second = 30\<rparr>
        \<lparr>go_for_outcome = Returns, stop_outcome = Returns\<rparr>]
     (running [''06:00'', ''12:00''] None, Absent)) \<le> 1"
proof -
  have a: "should_feed (at_time 6 0) (running [''06:00'', ''12:00''] None)"
    by (simp add: should_feed_iff running_sel strftime_examples)
  have b: "strftime_HM \<lparr>hour = 6, minute = 0, second = 30\<rparr> = strftime_HM (at_time 6 0)"
    by (simp add: strftime_HM_def at_time_def)
  have c: "\<forall>d m. Tick d m \<in> set
       [Tick (at_time 6 0) \<lparr>go_for_outcome = Raises ''timeout'', stop_outcome = Returns\<rparr>,
        ManualFeed \<lparr>go_for_outcome = Returns, stop_outcome = Returns\<rparr>,
        Tick \<lparr>hour = 6, minute = 0, second = 30\<rparr>
          \<lparr>go_for_outcome = Returns, stop_outcome = Returns\<rparr>]
      \<longrightarrow> strftime_HM d = ''06:00''"
    using b by (auto simp: strftime_examples)
  show ?thesis
    using a b c
      scheduled_feed_once [where now = "at_time 6 0"
        and st = "running [''06:00'', ''12:00''] None"
        and m = "\<lparr>go_for_outcome = Raises ''timeout'', stop_outcome = Returns\<rparr>"
        and now' = "\<lparr>hour = 6, minute = 0, second = 30\<rparr>"
        and acts = "[Tick (at_time 6 0)
            \<lparr>go_for_outcome = Raises ''timeout'', stop_outcome = Returns\<rparr>,
          ManualFeed \<lparr>go_for_outcome = Returns, stop_outcome = Returns\<rparr>,
          Tick \<lparr>hour = 6, minute = 0, second = 30\<rparr>
            \<lparr>go_for_outcome = Returns, stop_outcome = Returns\<rparr>]"
        and t = "''06:00''" and aborts = False and dumps = example_dumps
        and sf = "(running [''06:00'', ''12:00''] None, Absent)"]
    by blast
qed

text \<open>
  The same run of handlers starts exactly one feed task, and also when the exception of
  the firing check ends the process.
\<close>

lemma session_example:
  "snd (session aborts example_dumps
     [Tick (at_time 6 0) \<lparr>go_for_outcome = Raises ''timeout'', stop_outcome = Returns\<rparr>,
      ManualFeed \<lparr>go_for_outcome = Returns, stop_outcome = Returns\<rparr>,
      Tick \<lparr>hour = 6, minute = 0, second = 30\<rparr>
        \<lparr>go_for_outcome = Returns, stop_outcome = Returns\<rparr>]
     (running [''06:00'', ''12:00''] None, Absent)) = 1"
proof -
  have a: "should_feed (at_time 6 0) (running [''06:00'', ''12:00''] None)"
    by (simp add: should_feed_iff running_sel strftime_examples)
  then have ev: "FeedTask \<in> set (events (check_schedule (at_time 6 0)
      (running [''06:00'', ''12:00''] None)))"
    by (simp add: should_feed_def)
  have rs: "raised (check_schedule (at_time 6 0) (running [''06:00'', ''12:00''] None)) =
      Some TypeError"
    using a by (simp add: check_schedule_raised)
  have b: "strftime_HM \<lparr>hour = 6, minute = 0, second = 30\<rparr> = ''06:00''"
    by (simp add: strftime_HM_def pad2_def digit_char_def)
  have mk: "last_feed_time (attrs (check_schedule (at_time 6 0)
      (running [''06:00'', ''12:00''] None))) = Some ''06:00''"
    using a by (simp add: check_schedule_fired strftime_examples)
  have later: "check_schedule \<lparr>hour = 6, minute = 0, second = 30\<rparr> st =
      \<lparr>attrs = st, events = [], raised = None\<rparr>" if "last_feed_time st = Some ''06:00''" for st
    using that b by (simp add: check_schedule_marked)
  show ?thesis
    by (cases aborts)
      (simp_all add: ev rs Let_def later mk scheduled_feed_keeps on_feed_keeps)
qed

subsection \<open>Times that are accepted without being strict\<close>

text \<open>
  What \<open>add_time\<close> refuses: a text \<open>strptime\<close> rejects, a text already in the schedule,
  an empty text, a cancelled dialog. The attributes and the file stay as they were.
\<close>

lemma add_time_rejects:
  "strptime_HM t = None \<or> t \<in> set (schedule st) \<or> \<not> ok \<or> t = [] \<Longrightarrow>
   fst (add_time dumps w (t, ok) (st, f)) = (st, f)"
  by (auto simp: add_time_def split: option.split)

lemma strptime_examples:
  "strptime_HM ''6:00'' = Some (6, 0)" "strptime_HM ''6:5'' = Some (6, 5)"
  "strptime_HM ''24:00'' = None" "strptime_HM ''06:60'' = None"
  "strptime_HM ''0600'' = None" "strptime_HM ''06:00 '' = None"
  by (simp_all add: strptime_HM_def regex_HM_def match_H_def match_M_def match_colon_def
      is_digit_def digit_val_simps)

text \<open>
  The clock is always formatted with five characters, so a schedule entry of another
  length, such as \<open>6:00\<close>, never equals it: the entry is in the schedule and never fires.
\<close>

lemma length_strftime_HM: "length (strftime_HM d) = 5"
  by (simp add: strftime_HM_def pad2_def)

lemma unpadded_never_current: "strftime_HM d \<noteq> ''6:00''"
  using length_strftime_HM [of d] by auto

lemma unpadded_never_fires:
  "''6:00'' \<in> set (schedule st) \<Longrightarrow> strftime_HM now \<notin> set (schedule st) - {''6:00''} \<Longrightarrow>
   \<not> should_feed now st"
  using unpadded_never_current [of now] by (auto simp: should_feed_iff)

text \<open>
  C4. The claim asks that a text outside strict \<open>HH:MM\<close> leaves the schedule unchanged.
  \<open>strptime\<close> with \<open>%H:%M\<close> also accepts an hour or a minute of one digit: with the
  default schedule, the text \<open>6:00\<close> is not strict \<open>HH:MM\<close>, and \<open>add_time\<close> appends it,
  sorts, and writes the file.
\<close>

theorem add_time_accepts_unpadded:
  "\<not> strict_HHMM ''6:00'' \<and>
   schedule (running DEFAULT_SCHEDULE None) = [''06:00'', ''12:00'', ''16:02''] \<and>
   schedule (fst (fst (add_time example_dumps WriteOk (''6:00'', True)
      (running DEFAULT_SCHEDULE None, Absent)))) = [''06:00'', ''12:00'', ''16:02'', ''6:00''] \<and>
   snd (fst (add_time example_dumps WriteOk (''6:00'', True)
      (running DEFAULT_SCHEDULE None, Absent))) =
     Content ''[\"06:00\", \"12:00\", \"16:02\", \"6:00\"]''"
proof -
  have a: "\<not> strict_HHMM ''6:00''"
    by (simp add: strict_HHMM_def)
  have b: "schedule (running DEFAULT_SCHEDULE None) = [''06:00'', ''12:00'', ''16:02'']"
    by (simp add: running_def DEFAULT_SCHEDULE_def)
  have s: "sort [''06:00'', ''12:00'', ''16:02'', ''6:00''] = [''06:00'', ''12:00'', ''16:02'', ''6:00'']"
    by simp
  have c: "fst (add_time example_dumps WriteOk (''6:00'', True)
      (running DEFAULT_SCHEDULE None, Absent)) =
      (running [''06:00'', ''12:00'', ''16:02'', ''6:00''] None,
       Content ''[\"06:00\", \"12:00\", \"16:02\", \"6:00\"]'')"
    by (simp add: add_time_def strptime_examples b s Let_def save_schedule_def example_dumps_def)
       (simp add: running_def DEFAULT_SCHEDULE_def)
  show ?thesis
    using a b by (simp add: c running_sel)
qed

subsection \<open>The connected state and the list widget\<close>

text \<open>
  \<open>running\<close> is where a successful connection leaves the application after start-up.
\<close>

lemma running_reached:
  "fst (on_connect (ConnectOk names) (fst (init loads f))) =
     running (fst (load_schedule loads f)) None"
  by (simp add: on_connect_def init_def running_def split_beta)

text \<open>
  The list widget shows the schedule after every edit, so a selected row is an index of
  the schedule and \<open>remove_time\<close> does not raise.
\<close>

lemma add_time_in_sync:
  "schedule_list st = schedule st \<Longrightarrow>
   schedule_list (fst (fst (add_time dumps w dlg (st, f)))) =
     schedule (fst (fst (add_time dumps w dlg (st, f))))"
  by (cases dlg) (simp add: add_time_def Let_def split: option.split prod.split)

lemma remove_time_in_sync:
  "schedule_list st = schedule st \<Longrightarrow>
   remove_time dumps w i (st, f) = Inr ((st', f'), ev) \<Longrightarrow> schedule_list st' = schedule st'"
  by (auto simp: remove_time_def Let_def split: if_splits prod.splits)

lemma remove_time_selected_row:
  "schedule_list st = schedule st \<Longrightarrow> i < int (length (schedule_list st)) \<Longrightarrow>
   remove_time dumps w i (st, f) \<noteq> Inl IndexError"
  by (auto simp: remove_time_def Let_def split: prod.splits)

subsection \<open>The values \<open>strptime\<close> reads\<close>

lemma match_H_range: "(h, r) \<in> set (match_H s) \<Longrightarrow> h < 24"
  by (auto simp: match_H_def split: list.splits if_splits dest!: is_digit_cases
      simp: digit_val_simps)

lemma match_M_range: "(m, r) \<in> set (match_M s) \<Longrightarrow> m < 60"
  by (auto simp: match_M_def split: list.splits if_splits dest!: is_digit_cases
      simp: digit_val_simps)

lemma strptime_HM_range:
  assumes "strptime_HM s = Some (h, m)"
  shows "h < 24 \<and> m < 60"
proof -
  from assms have "(h, m, []) \<in> set (regex_HM s)"
    by (auto simp: strptime_HM_def split: list.splits if_splits)
  then show ?thesis
    by (auto simp: regex_HM_def dest: match_H_range match_M_range)
qed

end
